theory Spec2Isabelle
  imports Complex_Main
begin

section \<open>Python text primitives used by the crawler\<close>

text \<open>
  Text is modelled as \<^typ>\<open>string\<close>; one \<^typ>\<open>char\<close> stands for one item of a Python
  \<^verbatim>\<open>str\<close>, so slices such as \<^verbatim>\<open>paste_txt[0:1024]\<close> count items of the text.
\<close>

definition isspace :: "char \<Rightarrow> bool" where
  \<comment> \<open>the characters \<^verbatim>\<open>str.strip()\<close> removes, within the 8-bit range\<close>
  "isspace c \<longleftrightarrow> c \<in> {CHR 0x09, CHR 0x0A, CHR 0x0B, CHR 0x0C, CHR 0x0D,
                     CHR 0x1C, CHR 0x1D, CHR 0x1E, CHR 0x1F, CHR 0x20, CHR 0x85, CHR 0xA0}"

definition strip :: "string \<Rightarrow> string" where
  "strip s = rev (dropWhile isspace (rev (dropWhile isspace s)))"

fun py_split :: "char \<Rightarrow> string \<Rightarrow> string list" where
  \<comment> \<open>\<^verbatim>\<open>s.split(c)\<close> for a one-character separator: always at least one field\<close>
  "py_split c [] = [[]]"
| "py_split c (x # xs) =
     (if x = c then [] # py_split c xs
      else (case py_split c xs of
              [] \<Rightarrow> [[x]]
            | f # fs \<Rightarrow> (x # f) # fs))"

fun py_join :: "string \<Rightarrow> string list \<Rightarrow> string" where
  \<comment> \<open>\<^verbatim>\<open>sep.join(fields)\<close>\<close>
  "py_join sep [] = []"
| "py_join sep [f] = f"
| "py_join sep (f # g # fs) = f @ sep @ py_join sep (g # fs)"

definition startswith :: "string \<Rightarrow> string \<Rightarrow> bool" where
  "startswith s p \<longleftrightarrow> take (length p) s = p"

definition replace :: "char \<Rightarrow> string \<Rightarrow> string \<Rightarrow> string" where
  \<comment> \<open>\<^verbatim>\<open>s.replace(old, new)\<close> for a one-character \<^verbatim>\<open>old\<close>\<close>
  "replace old new s = concat (map (\<lambda>c. if c = old then new else [c]) s)"

fun py_in :: "string \<Rightarrow> string \<Rightarrow> bool" where
  \<comment> \<open>\<^verbatim>\<open>a in b\<close> on strings: \<^verbatim>\<open>a\<close> occurs as a contiguous piece of \<^verbatim>\<open>b\<close>\<close>
  "py_in a [] = (a = [])"
| "py_in a (y # ys) = (take (length a) (y # ys) = a \<or> py_in a ys)"

definition digit :: "nat \<Rightarrow> char" where
  "digit d = ''0123456789'' ! d"

fun str_nat :: "nat \<Rightarrow> string" where
  "str_nat n = (if n < 10 then [digit n] else str_nat (n div 10) @ [digit (n mod 10)])"

declare str_nat.simps [simp del]

definition str_int :: "int \<Rightarrow> string" where
  \<comment> \<open>\<^verbatim>\<open>str(n)\<close> and \<^verbatim>\<open>'{:d}'.format(n)\<close> of an int\<close>
  "str_int n = (if n < 0 then CHR ''-'' # str_nat (nat (- n)) else str_nat (nat n))"

section \<open>Errors\<close>

datatype error =
    SystemExit            \<comment> \<open>raised by \<^verbatim>\<open>exit()\<close> in \<^verbatim>\<open>Logger.fatal_error\<close>\<close>
  | ValueError
  | FileExistsError
  | FileNotFoundError
  | NotADirectoryError
  | IsADirectoryError
  | ReError               \<comment> \<open>\<^verbatim>\<open>re.error\<close>: the pattern is not a regular expression\<close>
  | DisplayError          \<comment> \<open>\<^verbatim>\<open>show_paste\<close> raised (libmagic, or the terminal's encoding)\<close>
  | KeyboardInterrupt     \<comment> \<open>re-raised by the operator's choice to quit\<close>

section \<open>Console and effects\<close>

datatype pynum = PyInt int | PyFloat rat

datatype event =
    Log string bool string bool   \<comment> \<open>\<^verbatim>\<open>Logger().log(message, is_bold, color, log_time)\<close>\<close>
  | Sleep pynum                   \<comment> \<open>\<^verbatim>\<open>time.sleep(seconds)\<close>\<close>
  | Fetch string                  \<comment> \<open>\<^verbatim>\<open>requests.get(url)\<close>\<close>

definition log_error :: "string \<Rightarrow> event" where
  \<comment> \<open>\<^verbatim>\<open>Logger.error\<close>\<close>
  "log_error err = Log err True ''RED'' True"

section \<open>Rule loading\<close>

datatype source =
    Unreadable            \<comment> \<open>\<^verbatim>\<open>open\<close> raises\<close>
  | Undecodable           \<comment> \<open>\<^verbatim>\<open>readlines\<close> raises\<close>
  | Lines "string list"   \<comment> \<open>what \<^verbatim>\<open>readlines\<close> returns, line ends included\<close>

definition REGEXES_FILE :: string where
  "REGEXES_FILE = ''regexes.txt''"

definition retained :: "string \<Rightarrow> bool" where
  "retained line \<longleftrightarrow> strip line \<noteq> [] \<and> \<not> startswith line ''#''"

definition line_fields :: "string \<Rightarrow> string list" where
  "line_fields line = map strip (py_split CHR '','' line)"

definition merge :: "string list \<Rightarrow> string list" where
  \<comment> \<open>\<^verbatim>\<open>[','.join(r[:-2])] + r[-2:]\<close>; neither slice raises on a short list\<close>
  "merge r = [py_join '','' (take (length r - 2) r)] @ drop (length r - 2) r"

definition malformed_msg :: string where
  "malformed_msg = ''Malformed regexes file. Format: regex_pattern,URL logging file, directory logging file.''"

definition read_regexes :: "source \<Rightarrow> event list \<times> (error + string list list)" where
  \<comment> \<open>the console lines, and either the rules or the \<^verbatim>\<open>SystemExit\<close> that leaves the process;
      a \<^verbatim>\<open>SystemExit\<close> of the inner handler is caught by the outer one, which exits again\<close>
  "read_regexes src =
     (case src of
        Unreadable \<Rightarrow>
          ([log_error (REGEXES_FILE @ '' not found or not acessible.'')], Inl SystemExit)
      | Undecodable \<Rightarrow>
          ([log_error malformed_msg,
            log_error (REGEXES_FILE @ '' not found or not acessible.'')], Inl SystemExit)
      | Lines ls \<Rightarrow> ([], Inr (map merge (map line_fields (filter retained ls)))))"

section \<open>The file system\<close>

text \<open>
  The part of the file system the crawler touches: the set of directories and the content
  of each regular file, both keyed by the path string as the program spells it. Paths are
  compared as strings (no normalisation of \<^verbatim>\<open>.\<close>, \<^verbatim>\<open>..\<close> or doubled slashes); the empty
  path stands for the directory a relative or absolute path starts from and always exists.
  Permission and device errors are outside this model: an operation fails only for the
  structural reasons written below.
\<close>

record filesys =
  dirs :: "string set"
  files :: "string \<rightharpoonup> string"

definition parent :: "string \<Rightarrow> string" where
  \<comment> \<open>the path up to its last slash\<close>
  "parent p = (if CHR ''/'' \<in> set p
               then rev (tl (dropWhile (\<lambda>c. c \<noteq> CHR ''/'') (rev p))) else [])"

fun prefixes_before :: "string \<Rightarrow> string \<Rightarrow> string list" where
  \<comment> \<open>with \<open>seen\<close> already read: the prefixes of \<open>seen @ rest\<close> that end before a slash of \<open>rest\<close>\<close>
  "prefixes_before seen [] = []"
| "prefixes_before seen (c # rest) =
     (if c = CHR ''/'' then [seen] else []) @ prefixes_before (seen @ [c]) rest"

definition ancestors :: "string \<Rightarrow> string list" where
  \<comment> \<open>every non-empty proper prefix of the path that ends before a slash\<close>
  "ancestors p = filter (\<lambda>a. a \<noteq> []) (prefixes_before [] p)"

definition makedirs :: "filesys \<Rightarrow> string \<Rightarrow> error + filesys" where
  \<comment> \<open>\<^verbatim>\<open>os.makedirs(name)\<close>: creates the missing ancestors and the leaf; an existing leaf is an error\<close>
  "makedirs f p =
     (if p = [] then Inl FileNotFoundError
      else if p \<in> dirs f \<or> files f p \<noteq> None then Inl FileExistsError
      else if \<exists>a \<in> set (ancestors p). files f a \<noteq> None then Inl NotADirectoryError
      else Inr (f\<lparr>dirs := dirs f \<union> set (ancestors p) \<union> {p}\<rparr>))"

definition open_error :: "filesys \<Rightarrow> string \<Rightarrow> error option" where
  \<comment> \<open>why \<^verbatim>\<open>open(path, 'a')\<close> or \<^verbatim>\<open>open(path, 'w')\<close> raises, if it does\<close>
  "open_error f p =
     (if p = [] then Some FileNotFoundError
      else if p \<in> dirs f then Some IsADirectoryError
      else if parent p = [] \<or> parent p \<in> dirs f then None
      else if files f (parent p) \<noteq> None then Some NotADirectoryError
      else Some FileNotFoundError)"

definition content :: "filesys \<Rightarrow> string \<Rightarrow> string" where
  "content f p = (case files f p of None \<Rightarrow> [] | Some old \<Rightarrow> old)"

definition append_file :: "filesys \<Rightarrow> string \<Rightarrow> string \<Rightarrow> error + filesys" where
  \<comment> \<open>\<^verbatim>\<open>with open(path, 'a') as f: f.write(text)\<close>\<close>
  "append_file f p text =
     (case open_error f p of
        Some e \<Rightarrow> Inl e
      | None \<Rightarrow> Inr (f\<lparr>files := (files f)(p \<mapsto> content f p @ text)\<rparr>))"

definition write_file :: "filesys \<Rightarrow> string \<Rightarrow> string \<Rightarrow> error + filesys" where
  \<comment> \<open>\<^verbatim>\<open>with open(path, mode='w') as f: f.write(text)\<close>\<close>
  "write_file f p text =
     (case open_error f p of
        Some e \<Rightarrow> Inl e
      | None \<Rightarrow> Inr (f\<lparr>files := (files f)(p \<mapsto> text)\<rparr>))"

section \<open>The crawler's state and its environment\<close>

text \<open>
  The environment answers what the program asks of the network, the clock, the regular
  expression engine, libmagic and the terminal. The network and the clock are asked with
  the number of questions put so far (\<open>ticks\<close>), so that two requests for the same paste
  may be answered differently. Console writes of the crawler's own messages are taken to
  succeed; writing paste text (\<^verbatim>\<open>show_paste\<close>) may raise.
\<close>

record env =
  http_get :: "nat \<Rightarrow> string \<Rightarrow> string option"
    \<comment> \<open>\<^verbatim>\<open>requests.get(url, headers=...).text\<close>; \<open>None\<close> when it raises\<close>
  get_timestamp :: "nat \<Rightarrow> string"
    \<comment> \<open>\<^verbatim>\<open>time.strftime('%Y/%m/%d %H:%M:%S')\<close>\<close>
  re_search :: "string \<Rightarrow> string \<Rightarrow> bool option"
    \<comment> \<open>\<^verbatim>\<open>re.search(pattern, text, re.IGNORECASE)\<close> found a match; \<open>None\<close> when it raises\<close>
  magic_from_buffer :: "string \<Rightarrow> string option"
    \<comment> \<open>\<^verbatim>\<open>magic.from_buffer(text)\<close>; \<open>None\<close> when it raises\<close>
  stdout_ok :: "string \<Rightarrow> bool"
    \<comment> \<open>the terminal can encode this paste text\<close>

record crawler =
  regexes :: "string list list"
  prev_checked_ids :: "string list"
  new_checked_ids :: "string list"
  pastes_for_save :: "(string \<times> string) list"
  verbose :: bool
  count :: int        \<comment> \<open>the local \<^verbatim>\<open>count\<close> of \<^verbatim>\<open>start\<close>\<close>
  fs :: filesys
  trace :: "event list"
  ticks :: nat

definition PASTEBIN_URL :: string where
  "PASTEBIN_URL = ''http://pastebin.com''"

definition PASTES_DIR :: string where
  "PASTES_DIR = ''archive''"

definition log :: "event \<Rightarrow> crawler \<Rightarrow> crawler" where
  "log e st = st\<lparr>trace := trace st @ [e]\<rparr>"

section \<open>Displaying a paste\<close>

definition fmt1 :: "nat \<Rightarrow> nat \<Rightarrow> string" where
  \<comment> \<open>\<^verbatim>\<open>'%0.1f' % (n / d)\<close> for a power of two \<open>d\<close>: the quotient is exact in binary
      floating point, and the formatting rounds it to one decimal, ties to even\<close>
  "fmt1 n d =
     (let q = (10 * n) div d; r = (10 * n) mod d;
          t = (if 2 * r > d \<or> (2 * r = d \<and> odd q) then q + 1 else q)
      in str_nat (t div 10) @ ''.'' @ [digit (t mod 10)])"

definition get_printable_size :: "nat \<Rightarrow> string" where
  "get_printable_size byte_size =
     (if byte_size < 1024 then str_nat byte_size @ '' B''
      else if byte_size < 1024 ^ 2 then fmt1 byte_size 1024 @ '' KB''
      else if byte_size < 1024 ^ 3 then fmt1 byte_size (1024 ^ 2) @ '' MB''
      else if byte_size < 1024 ^ 4 then fmt1 byte_size (1024 ^ 3) @ '' GB''
      else fmt1 byte_size (1024 ^ 4) @ ''TB'')"

definition show_paste :: "env \<Rightarrow> string \<Rightarrow> event list \<times> error option" where
  \<comment> \<open>the lines printed, and the error if one of the steps raised\<close>
  "show_paste ev paste_txt =
     (case magic_from_buffer ev (take 1024 paste_txt) of
        None \<Rightarrow> ([], Some DisplayError)
      | Some d \<Rightarrow>
          (let message = d @ '' ['' @ get_printable_size (length paste_txt) @ '']'' in
           if \<not> stdout_ok ev message then ([], Some DisplayError)
           else if \<not> stdout_ok ev (take 256 paste_txt)
             then ([Log message False ''BLUE'' False], Some DisplayError)
           else ([Log message False ''BLUE'' False,
                  Log (take 256 paste_txt) False ''YELLOW'' False], None)))"

section \<open>Saving a paste\<close>

definition save_name :: "string \<Rightarrow> string \<Rightarrow> string" where
  \<comment> \<open>the file name of a saved paste, without its directory\<close>
  "save_name timestamp paste_id =
     replace CHR '' '' ''__'' (replace CHR '':'' ''_'' (replace CHR ''/'' ''_'' timestamp))
     @ ''_'' @ replace CHR ''/'' [] paste_id @ ''.txt''"

definition save_result ::
  "env \<Rightarrow> crawler \<Rightarrow> string \<Rightarrow> string \<Rightarrow> string \<Rightarrow> string \<Rightarrow> string \<Rightarrow> error option \<times> crawler" where
  \<comment> \<open>the state (also when it raises), and the error raised, if any\<close>
  "save_result ev st paste_url paste_id file directory paste_txt =
     (let directory' = PASTES_DIR @ ''/'' @ directory;
          file' = PASTES_DIR @ ''/'' @ file;
          timestamp = get_timestamp ev (ticks st);
          st1 = st\<lparr>ticks := Suc (ticks st)\<rparr>;
          fs1 = (case makedirs (fs st1) directory' of Inl e \<Rightarrow> fs st1 | Inr f \<Rightarrow> f)
      in case append_file fs1 file' (timestamp @ '' - '' @ paste_url @ [CHR 0x0A]) of
           Inl e \<Rightarrow> (Some e, st1\<lparr>fs := fs1\<rparr>)
         | Inr fs2 \<Rightarrow>
             (let save_paste = directory' @ ''/'' @ save_name timestamp paste_id
              in case write_file fs2 save_paste (paste_txt @ [CHR 0x0A]) of
                   Inl e \<Rightarrow> (Some e, st1\<lparr>fs := fs2\<rparr>)
                 | Inr fs3 \<Rightarrow> (None, st1\<lparr>fs := fs3\<rparr>)))"

section \<open>Checking a paste\<close>

fun scan_regexes :: "env \<Rightarrow> string \<Rightarrow> string list list \<Rightarrow> error + (string \<times> string) option" where
  \<comment> \<open>the \<^verbatim>\<open>for regex, file, directory in self.regexes\<close> loop up to its first match:
      the label and directory of that rule, \<open>None\<close> when the loop runs out, or the error
      of a rule that does not unpack into three fields or of a pattern the engine rejects\<close>
  "scan_regexes ev paste_txt [] = Inr None"
| "scan_regexes ev paste_txt (r # rs) =
     (case r of
        [regex, file, directory] \<Rightarrow>
          (case re_search ev regex (take 1024 paste_txt) of
             None \<Rightarrow> Inl ReError
           | Some True \<Rightarrow> Inr (Some (file, directory))
           | Some False \<Rightarrow> scan_regexes ev paste_txt rs)
      | _ \<Rightarrow> Inl ValueError)"

definition read_failed :: "crawler \<Rightarrow> crawler" where
  \<comment> \<open>the \<^verbatim>\<open>except BaseException\<close> handler of \<^verbatim>\<open>check_paste\<close>\<close>
  "read_failed st =
     log (Log ''Error reading paste (probably a 404 or encoding issue).'' True ''YELLOW'' True) st"

definition check_paste :: "env \<Rightarrow> crawler \<Rightarrow> string \<Rightarrow> bool \<times> crawler" where
  "check_paste ev st paste_id =
     (let paste_url = PASTEBIN_URL @ ''/raw'' @ paste_id;
          st1 = st\<lparr>trace := trace st @ [Fetch paste_url], ticks := Suc (ticks st)\<rparr>
      in case http_get ev (ticks st) paste_url of
           None \<Rightarrow> (False, read_failed st1)
         | Some paste_txt \<Rightarrow>
             (let shown = (if \<not> verbose st1 then show_paste ev paste_txt else ([], None));
                  st2 = st1\<lparr>trace := trace st1 @ fst shown\<rparr>
              in case snd shown of
                   Some e \<Rightarrow> (False, read_failed st2)
                 | None \<Rightarrow>
                     (case scan_regexes ev paste_txt (regexes st2) of
                        Inl e \<Rightarrow> (False, read_failed st2)
                      | Inr (Some (file, directory)) \<Rightarrow>
                          (let st3 = log (Log (''Found a matching paste: '' @ paste_url @
                                               '' ('' @ file @ '')'') True ''CYAN'' True) st2
                           in case save_result ev st3 paste_url paste_id file directory paste_txt of
                                (Some e, st4) \<Rightarrow> (False, read_failed st4)
                              | (None, st4) \<Rightarrow> (True, st4))
                      | Inr None \<Rightarrow>
                          (False,
                           (log (Log (''Not matching paste: '' @ paste_url) False [] True) st2)
                             \<lparr>pastes_for_save := pastes_for_save st2 @ [(paste_id, paste_txt)]\<rparr>))))"

section \<open>The crawling loop\<close>

record params =
  refresh_time :: int
  delay :: pynum
  ban_wait :: int
  flush_after_x_refreshes :: int
  connection_timeout :: pynum
  silent :: bool

datatype outcome =
    Done crawler            \<comment> \<open>ran to its end\<close>
  | Raised error crawler    \<comment> \<open>an exception left it, in this state\<close>

fun state_of :: "outcome \<Rightarrow> crawler" where
  "state_of (Done st) = st"
| "state_of (Raised e st) = st"

fun seconds :: "pynum \<Rightarrow> rat" where
  "seconds (PyInt i) = of_int i"
| "seconds (PyFloat q) = q"

fun format_d :: "pynum \<Rightarrow> string option" where
  \<comment> \<open>\<^verbatim>\<open>'{:d}'.format(x)\<close>: a float raises ValueError\<close>
  "format_d (PyInt i) = Some (str_int i)"
| "format_d (PyFloat q) = None"

definition sleep :: "pynum \<Rightarrow> crawler \<Rightarrow> outcome" where
  \<comment> \<open>\<^verbatim>\<open>time.sleep(d)\<close>: a negative length raises ValueError\<close>
  "sleep d st = (if seconds d < 0 then Raised ValueError st else Done (log (Sleep d) st))"

definition visit :: "env \<Rightarrow> params \<Rightarrow> crawler \<Rightarrow> string \<Rightarrow> outcome" where
  \<comment> \<open>the body of \<^verbatim>\<open>if paste_id not in self.prev_checked_ids\<close>\<close>
  "visit ev prm st paste_id = sleep (delay prm) (snd (check_paste ev st paste_id))"

definition process_paste :: "env \<Rightarrow> params \<Rightarrow> crawler \<Rightarrow> string \<Rightarrow> outcome" where
  \<comment> \<open>one round of \<^verbatim>\<open>for paste in pastes\<close>, no operator interrupt arriving\<close>
  "process_paste ev prm st paste_id =
     (let st1 = st\<lparr>new_checked_ids := new_checked_ids st @ [paste_id]\<rparr>
      in case (if paste_id \<notin> set (prev_checked_ids st1) then visit ev prm st1 paste_id
               else Done st1) of
           Raised e st2 \<Rightarrow> Raised e st2
         | Done st2 \<Rightarrow> Done (st2\<lparr>count := count st2 + 1\<rparr>))"

fun run_pastes :: "env \<Rightarrow> params \<Rightarrow> crawler \<Rightarrow> string list \<Rightarrow> outcome" where
  "run_pastes ev prm st [] = Done st"
| "run_pastes ev prm st (paste_id # rest) =
     (case process_paste ev prm st paste_id of
        Raised e st' \<Rightarrow> Raised e st'
      | Done st' \<Rightarrow> run_pastes ev prm st' rest)"

fun save_each :: "env \<Rightarrow> crawler \<Rightarrow> (string \<times> string) list \<Rightarrow> error option \<times> crawler" where
  \<comment> \<open>the loop of \<^verbatim>\<open>save_last_pastes\<close>\<close>
  "save_each ev st [] = (None, st)"
| "save_each ev st ((paste_id, paste_txt) # rest) =
     (case save_result ev st [] paste_id ''saves.txt'' ''saves'' paste_txt of
        (Some e, st') \<Rightarrow> (Some e, st')
      | (None, st') \<Rightarrow> save_each ev st' rest)"

definition save_last_pastes :: "env \<Rightarrow> crawler \<Rightarrow> error option \<times> crawler" where
  "save_last_pastes ev st =
     (case save_each ev st (pastes_for_save st) of
        (Some e, st') \<Rightarrow> (Some e, st')
      | (None, st') \<Rightarrow> (None, st'\<lparr>pastes_for_save := []\<rparr>))"

definition on_interrupt :: "env \<Rightarrow> crawler \<Rightarrow> string \<Rightarrow> outcome" where
  \<comment> \<open>the \<^verbatim>\<open>except KeyboardInterrupt\<close> handler of the loop; \<open>user_choice\<close> is what
      \<^verbatim>\<open>get_char\<close> read (one character, or nothing at end of input)\<close>
  "on_interrupt ev st user_choice =
     (let st1 = log (Log ([CHR 0x0A] @ ''Quit/Verbose/Save(last '' @
                          str_nat (length (pastes_for_save st)) @ '' pastes)[q/v/s]:'')
                         False ''RED'' False) st
      in case (if py_in user_choice ''sS'' then save_last_pastes ev st1 else (None, st1)) of
           (Some e, st2) \<Rightarrow> Raised e st2
         | (None, st2) \<Rightarrow>
             (let st3 = (if py_in user_choice ''vV'' then st2\<lparr>verbose := \<not> verbose st2\<rparr> else st2)
              in if py_in user_choice ''qQ'' then Raised KeyboardInterrupt st3 else Done st3))"

datatype status = OK | ACCESS_DENIED | CONNECTION_FAIL | OTHER_ERROR

record poll =
  status :: status        \<comment> \<open>what \<^verbatim>\<open>get_pastes\<close> returned\<close>
  pastes :: "string list" \<comment> \<open>the \<^verbatim>\<open>href\<close> of each listed paste, in page order\<close>
  elapsed :: rat          \<comment> \<open>the seconds the listing took to process\<close>

definition commit :: "params \<Rightarrow> crawler \<Rightarrow> crawler" where
  \<comment> \<open>the end of a successful refresh: flush or extend the seen identifiers. The flush binds
      \<^verbatim>\<open>prev_checked_ids\<close> to the list object of \<^verbatim>\<open>new_checked_ids\<close>, which is rebound to a fresh
      list right after, so the two lists never share an object while a listing is processed\<close>
  "commit prm st =
     (if count st = flush_after_x_refreshes prm
      then st\<lparr>prev_checked_ids := new_checked_ids st, count := 0\<rparr>
      else st\<lparr>prev_checked_ids := prev_checked_ids st @ new_checked_ids st\<rparr>)
     \<lparr>new_checked_ids := []\<rparr>"

definition ban_notices :: "int \<Rightarrow> event list" where
  \<comment> \<open>\<^verbatim>\<open>for i in range(0, ban_wait)\<close>: a notice and a minute of sleep each\<close>
  "ban_notices bw =
     concat (map (\<lambda>i. [Log (''Please wait '' @ str_int (bw - int i) @ '' minute'' @
                             (if bw - int i > 1 then ''s'' else [])) False [] True,
                        Sleep (PyInt 60)])
                 [0..<nat bw])"

definition begin_cycle :: "crawler \<Rightarrow> crawler" where
  \<comment> \<open>the notice \<^verbatim>\<open>get_pastes\<close> logs, and \<^verbatim>\<open>del self.pastes_for_save[:]\<close>\<close>
  "begin_cycle st = (log (Log ''Getting pastes'' True [] True) st)\<lparr>pastes_for_save := []\<rparr>"

definition cycle :: "env \<Rightarrow> params \<Rightarrow> crawler \<Rightarrow> poll \<Rightarrow> outcome" where
  \<comment> \<open>one round of \<^verbatim>\<open>while True\<close>, for the answer \<open>p\<close> of \<^verbatim>\<open>get_pastes\<close>\<close>
  "cycle ev prm st p =
     (let st0 = begin_cycle st
      in case status p of
           OK \<Rightarrow>
             (case run_pastes ev prm st0 (pastes p) of
                Raised e st1 \<Rightarrow> Raised e st1
              | Done st1 \<Rightarrow>
                  (let st2 = commit prm st1;
                       sleep_time = \<lceil>max 0 (of_int (refresh_time prm) - elapsed p)\<rceil>
                   in if sleep_time > 0
                      then sleep (PyInt sleep_time)
                             (log (Log (''Waiting '' @ str_int sleep_time @
                                        '' seconds to refresh...'') True [] True) st2)
                      else Done st2))
         | ACCESS_DENIED \<Rightarrow>
             (let st1 = log (Log ''Damn! It looks like you have been banned (probably temporarily)''
                             True ''YELLOW'' True) st0
              in Done (st1\<lparr>trace := trace st1 @ ban_notices (ban_wait prm)\<rparr>))
         | CONNECTION_FAIL \<Rightarrow>
             (case format_d (connection_timeout prm) of
                None \<Rightarrow> Raised ValueError st0
              | Some secs \<Rightarrow>
                  sleep (connection_timeout prm)
                    (log (Log (''Connection down. Waiting '' @ secs @
                               '' seconds and trying again'') True ''RED'' True) st0))
         | OTHER_ERROR \<Rightarrow>
             (case format_d (connection_timeout prm) of
                None \<Rightarrow> Raised ValueError st0
              | Some secs \<Rightarrow>
                  sleep (PyInt 1)
                    (log (Log (''Unknown error. Maybe an encoding problem? Trying again in '' @
                               secs @ '' seconds .'') True ''RED'' True) st0)))"


definition init :: "string list list \<Rightarrow> filesys \<Rightarrow> crawler" where
  \<comment> \<open>the object after \<^verbatim>\<open>__init__\<close>: the class attributes and the loaded rules\<close>
  "init rules f =
     \<lparr>regexes = rules, prev_checked_ids = [], new_checked_ids = [], pastes_for_save = [],
      verbose = False, count = 0, fs = f, trace = [], ticks = 0\<rparr>"


section \<open>Example environments\<close>

definition lower :: "char \<Rightarrow> char" where
  "lower c = (case map_of (zip ''ABCDEFGHIJKLMNOPQRSTUVWXYZ'' ''abcdefghijklmnopqrstuvwxyz'') c of
                None \<Rightarrow> c | Some l \<Rightarrow> l)"

definition literal :: "char \<Rightarrow> bool" where
  "literal c \<longleftrightarrow> c \<in> set ''abcdefghijklmnopqrstuvwxyzABCDEFGHIJKLMNOPQRSTUVWXYZ0123456789 ''"

definition literal_search :: "string \<Rightarrow> string \<Rightarrow> bool option" where
  \<comment> \<open>the engine on the patterns of the examples: a pattern of letters, digits and spaces
      matches where it occurs in the text, letter case ignored; any other pattern is
      answered as \<^verbatim>\<open>re.error\<close>, which is what \<^verbatim>\<open>re\<close> says of the one such pattern the
      examples use, the unbalanced \<^verbatim>\<open>(\<close>\<close>
  "literal_search pattern text =
     (if list_all literal pattern then Some (py_in (map lower pattern) (map lower text)) else None)"

definition example_env :: env where
  \<comment> \<open>the site serves two pastes; the clock shows the second at which it is asked\<close>
  "example_env =
     \<lparr>http_get = (\<lambda>n url. if url = ''http://pastebin.com/raw/x1'' then Some ''secret token ABC''
                           else if url = ''http://pastebin.com/raw/x2'' then Some ''normal text''
                           else None),
      get_timestamp = (\<lambda>n. ''2020/01/01 00:00:0'' @ [digit (n mod 10)]),
      re_search = literal_search,
      magic_from_buffer = (\<lambda>text. Some ''ASCII text''),
      stdout_ok = (\<lambda>text. True)\<rparr>"

definition example_params :: params where
  "example_params =
     \<lparr>refresh_time = 30, delay = PyInt 1, ban_wait = 2, flush_after_x_refreshes = 3,
      connection_timeout = PyInt 5, silent = False\<rparr>"

definition empty_fs :: filesys where
  "empty_fs = \<lparr>dirs = {}, files = Map.empty\<rparr>"

section \<open>Notions used by the properties\<close>

definition misses :: "env \<Rightarrow> string \<Rightarrow> string list \<Rightarrow> bool" where
  \<comment> \<open>the rule unpacks into three fields and its pattern is searched without a match\<close>
  "misses ev paste_txt r \<longleftrightarrow>
     (\<exists>regex file directory. r = [regex, file, directory] \<and>
        re_search ev regex (take 1024 paste_txt) = Some False)"

definition same_ids :: "crawler \<Rightarrow> crawler \<Rightarrow> bool" where
  \<comment> \<open>the second state has the rules, the identifier lists, the flag and the counter of the first\<close>
  "same_ids a b \<longleftrightarrow>
     regexes b = regexes a \<and> prev_checked_ids b = prev_checked_ids a \<and>
     new_checked_ids b = new_checked_ids a \<and> verbose b = verbose a \<and> count b = count a"

definition is_log :: "event \<Rightarrow> bool" where
  "is_log e \<longleftrightarrow> (case e of Log m b c t \<Rightarrow> True | _ \<Rightarrow> False)"

definition raw_url :: "string \<Rightarrow> string" where
  \<comment> \<open>the \<^verbatim>\<open>paste_url\<close> of \<^verbatim>\<open>check_paste\<close>\<close>
  "raw_url paste_id = PASTEBIN_URL @ ''/raw'' @ paste_id"

definition read_error_notice :: event where
  "read_error_notice =
     Log ''Error reading paste (probably a 404 or encoding issue).'' True ''YELLOW'' True"

definition token_rules :: "string list list" where
  \<comment> \<open>the rule file of one line, \<^verbatim>\<open>token,tokens.txt,found\<close>\<close>
  "token_rules = [[''token'', ''tokens.txt'', ''found'']]"

definition listing :: "string list \<Rightarrow> poll" where
  \<comment> \<open>a listing that was answered and took no time to process\<close>
  "listing ps = \<lparr>status = OK, pastes = ps, elapsed = 0\<rparr>"

definition category_dir :: "string \<Rightarrow> string" where
  \<comment> \<open>\<^verbatim>\<open>directory\<close> as \<^verbatim>\<open>save_result\<close> rebinds it\<close>
  "category_dir directory = PASTES_DIR @ ''/'' @ directory"

definition audit_path :: "string \<Rightarrow> string" where
  \<comment> \<open>\<^verbatim>\<open>file\<close> as \<^verbatim>\<open>save_result\<close> rebinds it\<close>
  "audit_path label = PASTES_DIR @ ''/'' @ label"

definition audit_line :: "string \<Rightarrow> string \<Rightarrow> string" where
  "audit_line timestamp paste_url = timestamp @ '' - '' @ paste_url @ [CHR 0x0A]"

definition content_path :: "string \<Rightarrow> string \<Rightarrow> string \<Rightarrow> string" where
  \<comment> \<open>\<^verbatim>\<open>save_paste\<close>\<close>
  "content_path directory timestamp paste_id =
     category_dir directory @ ''/'' @ save_name timestamp paste_id"

definition ensure_dir :: "filesys \<Rightarrow> string \<Rightarrow> filesys" where
  \<comment> \<open>\<^verbatim>\<open>os.makedirs\<close> with every error swallowed\<close>
  "ensure_dir f d = (case makedirs f d of Inl e \<Rightarrow> f | Inr f' \<Rightarrow> f')"

definition shown_lines :: "env \<Rightarrow> crawler \<Rightarrow> string \<Rightarrow> event list" where
  \<comment> \<open>what \<^verbatim>\<open>show_paste\<close> prints of the paste the site answers with, if it answers\<close>
  "shown_lines ev st paste_id =
     (case http_get ev (ticks st) (raw_url paste_id) of
        None \<Rightarrow> []
      | Some paste_txt \<Rightarrow> fst (show_paste ev paste_txt))"

definition displayable :: "env \<Rightarrow> crawler \<Rightarrow> string \<Rightarrow> bool" where
  \<comment> \<open>\<^verbatim>\<open>show_paste\<close> does not raise on the paste the site answers with\<close>
  "displayable ev st paste_id \<longleftrightarrow>
     (case http_get ev (ticks st) (raw_url paste_id) of
        None \<Rightarrow> True
      | Some paste_txt \<Rightarrow> snd (show_paste ev paste_txt) = None)"

definition ascii_terminal_env :: env where
  \<comment> \<open>the site serves a paste with a letter outside ASCII; the terminal encodes ASCII only\<close>
  "ascii_terminal_env =
     example_env
       \<lparr>http_get := (\<lambda>n url. if url = ''http://pastebin.com/raw/x4''
                             then Some (''token caf'' @ [CHR 0xE9]) else None),
        stdout_ok := list_all (\<lambda>c. c \<noteq> CHR 0xE9)\<rparr>"

definition blocked_fs :: filesys where
  \<comment> \<open>a regular file stands where the category directory of \<open>token_rules\<close> would go\<close>
  "blocked_fs = \<lparr>dirs = {''archive''}, files = [''archive/found'' \<mapsto> ''earlier'' @ [CHR 0x0A]]\<rparr>"



section \<open>Properties of rule loading\<close>

lemma drop_last_two:
  assumes "2 \<le> length r"
  shows "drop (length r - 2) r = [last (butlast r), last r]"
proof -
  from assms obtain xs x where r: "r = xs @ [x]"
    by (cases r rule: rev_cases) auto
  with assms obtain ys y where xs: "xs = ys @ [y]"
    by (cases xs rule: rev_cases) auto
  show ?thesis by (simp add: r xs butlast_append)
qed

lemma take_all_but_two: "take (length r - 2) r = butlast (butlast r)"
  by (simp add: butlast_conv_take numeral_2_eq_2)

lemmas text_defs = retained_def line_fields_def merge_def strip_def isspace_def startswith_def

text \<open>
  C4. A retained line with at least three comma-separated fields loads as one rule: its
  last two fields (stripped) are the label and the category, and the fields before them
  (stripped), joined by commas again, are the pattern. The line \<^verbatim>\<open>foo,bar.txt,dir1\<close> loads
  as pattern \<^verbatim>\<open>foo\<close>, label \<^verbatim>\<open>bar.txt\<close>, category \<^verbatim>\<open>dir1\<close>; the line \<^verbatim>\<open>a,b,c.txt,dir2\<close>
  as pattern \<^verbatim>\<open>a,b\<close>, label \<^verbatim>\<open>c.txt\<close>, category \<^verbatim>\<open>dir2\<close>.
\<close>

theorem read_regexes_last_two_fields:
  "(retained line \<and> 3 \<le> length (line_fields line) \<longrightarrow>
      snd (read_regexes (Lines [line])) =
        Inr [[py_join '','' (butlast (butlast (line_fields line))),
              last (butlast (line_fields line)), last (line_fields line)]])
   \<and> snd (read_regexes (Lines [''foo,bar.txt,dir1''])) = Inr [[''foo'', ''bar.txt'', ''dir1'']]
   \<and> snd (read_regexes (Lines [''a,b,c.txt,dir2''])) = Inr [[''a,b'', ''c.txt'', ''dir2'']]"
proof (intro conjI impI)
  assume a: "retained line \<and> 3 \<le> length (line_fields line)"
  then have "2 \<le> length (line_fields line)" by simp
  then have "merge (line_fields line) =
      [py_join '','' (butlast (butlast (line_fields line))),
       last (butlast (line_fields line)), last (line_fields line)]"
    unfolding merge_def by (simp only: drop_last_two take_all_but_two append.simps)
  with a show "snd (read_regexes (Lines [line])) =
        Inr [[py_join '','' (butlast (butlast (line_fields line))),
              last (butlast (line_fields line)), last (line_fields line)]]"
    by (simp add: read_regexes_def)
next
  show "snd (read_regexes (Lines [''foo,bar.txt,dir1''])) = Inr [[''foo'', ''bar.txt'', ''dir1'']]"
    by (simp add: read_regexes_def text_defs)
next
  show "snd (read_regexes (Lines [''a,b,c.txt,dir2''])) = Inr [[''a,b'', ''c.txt'', ''dir2'']]"
    by (simp add: read_regexes_def text_defs)
qed

text \<open>
  The same on a line as \<^verbatim>\<open>readlines\<close> hands it over, with blanks around the commas and its
  line end: the blanks do not reach the pattern.
\<close>

theorem read_regexes_last_two_fields_witness:
  "retained (''a , b,c.txt,dir2'' @ [CHR 0x0A])
   \<and> 3 \<le> length (line_fields (''a , b,c.txt,dir2'' @ [CHR 0x0A]))
   \<and> snd (read_regexes (Lines [''a , b,c.txt,dir2'' @ [CHR 0x0A]])) =
       Inr [[''a,b'', ''c.txt'', ''dir2'']]"
  using read_regexes_last_two_fields [of "''a , b,c.txt,dir2'' @ [CHR 0x0A]"]
  by (simp add: text_defs)

text \<open>
  C2. A rule file that cannot be opened or decoded ends the process. A retained line with
  fewer than three fields does not: neither slice of \<^verbatim>\<open>merge\<close> raises, so the handler that
  reports a malformed file is never entered, and every readable file loads. The line
  \<^verbatim>\<open>foo,bar.txt\<close> becomes a rule with the empty pattern, and the line \<^verbatim>\<open>foo\<close> a rule of two
  fields.
\<close>

theorem read_regexes_accepts_short_lines:
  "snd (read_regexes Unreadable) = Inl SystemExit
   \<and> snd (read_regexes Undecodable) = Inl SystemExit
   \<and> snd (read_regexes (Lines [''foo,bar.txt'' @ [CHR 0x0A]])) = Inr [[[], ''foo'', ''bar.txt'']]
   \<and> snd (read_regexes (Lines [''foo'' @ [CHR 0x0A]])) = Inr [[[], ''foo'']]
   \<and> (\<forall>ls. \<exists>rules. read_regexes (Lines ls) = ([], Inr rules))"
  by (simp add: read_regexes_def text_defs)

section \<open>Properties of the backoff\<close>

lemmas num_defs = str_int_def str_nat.simps digit_def

lemma connection_wait_int:
  "0 \<le> n \<Longrightarrow>
   cycle ev (prm\<lparr>connection_timeout := PyInt n\<rparr>) st
     \<lparr>status = CONNECTION_FAIL, pastes = ps, elapsed = t\<rparr> =
     Done (st\<lparr>pastes_for_save := [],
              trace := trace st @
                [Log ''Getting pastes'' True [] True,
                 Log (''Connection down. Waiting '' @ str_int n @ '' seconds and trying again'')
                   True ''RED'' True,
                 Sleep (PyInt n)]\<rparr>)"
  by (simp add: cycle_def begin_cycle_def sleep_def log_def)

text \<open>
  A timeout that arrives as a float (as the command line delivers it) cannot be formatted
  with \<^verbatim>\<open>{:d}\<close>: the round raises before it sleeps.
\<close>

lemma connection_wait_float:
  "\<exists>st'. cycle ev (prm\<lparr>connection_timeout := PyFloat q\<rparr>) st
            \<lparr>status = CONNECTION_FAIL, pastes = ps, elapsed = t\<rparr> = Raised ValueError st'"
  by (simp add: cycle_def)

lemma ban_notice_count:
  "length (filter (\<lambda>e. e \<noteq> Sleep (PyInt 60)) (ban_notices bw)) = nat bw
   \<and> length (filter (\<lambda>e. e = Sleep (PyInt 60)) (ban_notices bw)) = nat bw"
  unfolding ban_notices_def
  by (induction "nat bw" arbitrary: bw)
     (simp_all add: filter_concat comp_def sum_list_triv length_concat)



section \<open>Properties of the classification\<close>

lemma scan_regexes_skip:
  "list_all (misses ev paste_txt) before \<Longrightarrow>
   scan_regexes ev paste_txt (before @ rest) = scan_regexes ev paste_txt rest"
  by (induction before) (auto simp: misses_def)

lemma scan_regexes_prefix:
  "take 1024 a = take 1024 b \<Longrightarrow> scan_regexes ev a rules = scan_regexes ev b rules"
  by (induction rules) (auto split: list.splits option.splits bool.splits)

lemmas search_defs = literal_search_def literal_def lower_def

lemma re_search_example [simp]: "re_search example_env = literal_search"
  by (simp add: example_env_def)

text \<open>
  C3. The rules are tried in their order against the first 1024 characters of the body,
  the engine ignoring letter case. The scan is a function of the engine, the rules and
  that prefix. It returns the label and category of the first rule whose pattern matches,
  provided every rule before it unpacks into three fields and has a pattern the engine
  accepts; it returns no match when this holds of every rule and none matches. Two bodies
  with the same first 1024 characters are classified alike.
\<close>

theorem scan_regexes_first_match:
  "(list_all (misses ev paste_txt) before \<and>
    re_search ev regex (take 1024 paste_txt) = Some True \<longrightarrow>
      scan_regexes ev paste_txt (before @ [regex, file, directory] # after) =
        Inr (Some (file, directory)))
   \<and> (list_all (misses ev paste_txt) rules \<longrightarrow> scan_regexes ev paste_txt rules = Inr None)
   \<and> (take 1024 paste_txt = take 1024 other_txt \<longrightarrow>
        scan_regexes ev paste_txt rules = scan_regexes ev other_txt rules)"
proof (intro conjI impI)
  assume "list_all (misses ev paste_txt) before \<and>
    re_search ev regex (take 1024 paste_txt) = Some True"
  then show "scan_regexes ev paste_txt (before @ [regex, file, directory] # after) =
        Inr (Some (file, directory))"
    by (simp add: scan_regexes_skip)
next
  assume "list_all (misses ev paste_txt) rules"
  then have "scan_regexes ev paste_txt (rules @ []) = scan_regexes ev paste_txt []"
    by (rule scan_regexes_skip)
  then show "scan_regexes ev paste_txt rules = Inr None" by simp
next
  assume "take 1024 paste_txt = take 1024 other_txt"
  then show "scan_regexes ev paste_txt rules = scan_regexes ev other_txt rules"
    by (rule scan_regexes_prefix)
qed

theorem scan_regexes_first_match_witness:
  "list_all (misses example_env ''secret token ABC'') [[''foo'', ''f.txt'', ''d'']]
   \<and> re_search example_env ''token'' (take 1024 ''secret token ABC'') = Some True
   \<and> scan_regexes example_env ''secret token ABC''
        [[''foo'', ''f.txt'', ''d''], [''token'', ''tokens.txt'', ''found''],
         [''abc'', ''x.txt'', ''e'']] = Inr (Some (''tokens.txt'', ''found''))
   \<and> list_all (misses example_env ''normal text'')
        [[''foo'', ''f.txt'', ''d''], [''token'', ''tokens.txt'', ''found'']]
   \<and> scan_regexes example_env ''normal text''
        [[''foo'', ''f.txt'', ''d''], [''token'', ''tokens.txt'', ''found'']] = Inr None
   \<and> take 1024 (replicate 1024 CHR ''a'' @ ''token'') = take 1024 (replicate 1024 CHR ''a'')
   \<and> scan_regexes example_env (replicate 1024 CHR ''a'' @ ''token'')
        [[''token'', ''tokens.txt'', ''found'']] =
      scan_regexes example_env (replicate 1024 CHR ''a'') [[''token'', ''tokens.txt'', ''found'']]"
proof -
  have a: "list_all (misses example_env ''secret token ABC'') [[''foo'', ''f.txt'', ''d'']]"
    by (simp add: misses_def search_defs)
  have b: "re_search example_env ''token'' (take 1024 ''secret token ABC'') = Some True"
    by (simp add: search_defs)
  have c: "list_all (misses example_env ''normal text'')
             [[''foo'', ''f.txt'', ''d''], [''token'', ''tokens.txt'', ''found'']]"
    by (simp add: misses_def search_defs)
  have d: "take 1024 (replicate 1024 CHR ''a'' @ ''token'') = take 1024 (replicate 1024 CHR ''a'')"
    by simp
  show ?thesis
    using a b c d
      scan_regexes_first_match [of example_env "''secret token ABC''" "[[''foo'', ''f.txt'', ''d'']]"
        "''token''" "''tokens.txt''" "''found''" "[[''abc'', ''x.txt'', ''e'']]"]
      scan_regexes_first_match [of example_env "''normal text''" "[]" "''token''" _ _ _
        "[[''foo'', ''f.txt'', ''d''], [''token'', ''tokens.txt'', ''found'']]"]
      scan_regexes_first_match [of example_env "replicate 1024 CHR ''a'' @ ''token''" "[]"
        "''token''" _ _ _ "[[''token'', ''tokens.txt'', ''found'']]" "replicate 1024 CHR ''a''"]
    by simp
qed

text \<open>
  The claim as stated, for every rule set, fails where a pattern the engine rejects stands
  before the matching rule: the second rule's pattern matches the body, yet the scan ends
  in the error of the first.
\<close>

theorem scan_regexes_rejected_pattern_counterexample:
  "re_search example_env ''token'' (take 1024 ''secret token ABC'') = Some True
   \<and> re_search example_env ''('' (take 1024 ''secret token ABC'') = None
   \<and> scan_regexes example_env ''secret token ABC''
        [[''('', ''a.txt'', ''d''], [''token'', ''tokens.txt'', ''found'']] = Inl ReError"
  by (simp add: search_defs)

section \<open>What the steps of a round leave unchanged\<close>

lemmas fs_defs = makedirs_def append_file_def write_file_def open_error_def parent_def
  ancestors_def content_def
lemmas save_defs = save_result_def save_name_def replace_def PASTES_DIR_def
lemmas check_defs = check_paste_def show_paste_def get_printable_size_def log_def read_failed_def
  PASTEBIN_URL_def
lemmas loop_defs = visit_def process_paste_def sleep_def commit_def cycle_def begin_cycle_def
lemmas example_defs = example_env_def example_params_def init_def empty_fs_def token_rules_def listing_def

lemma save_result_same_ids:
  "save_result ev st paste_url paste_id label directory paste_txt = (r, st') \<Longrightarrow>
   same_ids st st' \<and> trace st' = trace st \<and> pastes_for_save st' = pastes_for_save st
   \<and> ticks st' = Suc (ticks st)"
  by (auto simp: save_result_def Let_def same_ids_def split: sum.splits)

lemma check_paste_same_ids: "same_ids st (snd (check_paste ev st paste_id))"
  unfolding check_paste_def Let_def read_failed_def log_def
  by (auto simp: same_ids_def split: option.splits sum.splits prod.splits dest!: save_result_same_ids)

lemma show_paste_logs: "list_all is_log (fst (show_paste ev t))"
  by (simp add: show_paste_def is_log_def Let_def split: option.splits)

lemma check_paste_trace:
  "\<exists>es. trace (snd (check_paste ev st paste_id)) = trace st @ Fetch (raw_url paste_id) # es
        \<and> list_all is_log es"
  unfolding check_paste_def Let_def read_failed_def log_def raw_url_def
  using show_paste_logs [of ev]
  by (auto simp: is_log_def split: option.splits sum.splits prod.splits dest!: save_result_same_ids)

lemma check_paste_fetch_failed:
  "http_get ev (ticks st) (raw_url paste_id) = None \<Longrightarrow>
   check_paste ev st paste_id =
     (False, st\<lparr>trace := trace st @ [Fetch (raw_url paste_id), read_error_notice],
                ticks := Suc (ticks st)\<rparr>)"
  by (simp add: check_paste_def Let_def read_failed_def log_def raw_url_def read_error_notice_def)

lemma visit_ids:
  "prev_checked_ids (state_of (visit ev prm st paste_id)) = prev_checked_ids st
   \<and> new_checked_ids (state_of (visit ev prm st paste_id)) = new_checked_ids st
   \<and> count (state_of (visit ev prm st paste_id)) = count st"
  using check_paste_same_ids [of st ev paste_id]
  by (simp add: visit_def sleep_def log_def same_ids_def)

lemma process_paste_ids:
  "prev_checked_ids (state_of (process_paste ev prm st paste_id)) = prev_checked_ids st
   \<and> new_checked_ids (state_of (process_paste ev prm st paste_id)) = new_checked_ids st @ [paste_id]"
  using visit_ids [of ev prm "st\<lparr>new_checked_ids := new_checked_ids st @ [paste_id]\<rparr>" paste_id]
  by (auto simp: process_paste_def Let_def split: outcome.splits)

lemma process_paste_count:
  "process_paste ev prm st paste_id = Done st' \<Longrightarrow> count st' = count st + 1"
  using visit_ids [of ev prm "st\<lparr>new_checked_ids := new_checked_ids st @ [paste_id]\<rparr>" paste_id]
  by (auto simp: process_paste_def Let_def split: outcome.splits if_splits)

lemma run_pastes_ids:
  "run_pastes ev prm st ps = Done st' \<Longrightarrow>
   prev_checked_ids st' = prev_checked_ids st \<and> new_checked_ids st' = new_checked_ids st @ ps
   \<and> count st' = count st + int (length ps)"
proof (induction ps arbitrary: st)
  case Nil
  then show ?case by simp
next
  case (Cons p ps)
  from Cons.prems obtain s1 where s1: "process_paste ev prm st p = Done s1"
    and rest: "run_pastes ev prm s1 ps = Done st'"
    by (auto split: outcome.splits)
  from process_paste_ids [of ev prm st p] s1
  have "prev_checked_ids s1 = prev_checked_ids st" "new_checked_ids s1 = new_checked_ids st @ [p]"
    by simp_all
  moreover from process_paste_count [OF s1] have "count s1 = count st + 1" .
  ultimately show ?case using Cons.IH [OF rest] by simp
qed

lemma cycle_ok:
  assumes "run_pastes ev prm (begin_cycle st) ps = Done st1"
  shows "\<exists>st'. cycle ev prm st \<lparr>status = OK, pastes = ps, elapsed = t\<rparr> = Done st'
           \<and> same_ids (commit prm st1) st'"
  using assms by (simp add: cycle_def Let_def sleep_def log_def same_ids_def)

section \<open>Properties of a round\<close>


lemmas run_defs = raw_url_def read_error_notice_def check_defs save_defs fs_defs loop_defs
  example_defs search_defs num_defs Let_def

text \<open>
  C7. When fetching a paste raises, \<^verbatim>\<open>check_paste\<close> returns normally with \<open>False\<close>: it logs
  the read error and changes neither the files nor the buffer of unmatched pastes. The
  loop over the listing then sleeps the delay and goes on with the next identifier; the
  answer of \<^verbatim>\<open>get_pastes\<close> that selected the round's branch is not touched. The identifier
  is appended to \<^verbatim>\<open>new_checked_ids\<close> before the fetch, whatever its outcome, and a round that
  ends leaves every listed identifier in \<^verbatim>\<open>prev_checked_ids\<close>.
\<close>

theorem fetch_failure_is_skipped:
  "(http_get ev (ticks st) (raw_url paste_id) = None \<longrightarrow>
      check_paste ev st paste_id =
        (False, st\<lparr>trace := trace st @ [Fetch (raw_url paste_id), read_error_notice],
                   ticks := Suc (ticks st)\<rparr>))
   \<and> (http_get ev (ticks st) (raw_url paste_id) = None \<and> paste_id \<notin> set (prev_checked_ids st) \<longrightarrow>
        run_pastes ev prm st (paste_id # rest) =
          (case sleep (delay prm)
                  (st\<lparr>new_checked_ids := new_checked_ids st @ [paste_id],
                      trace := trace st @ [Fetch (raw_url paste_id), read_error_notice],
                      ticks := Suc (ticks st)\<rparr>) of
             Raised e s \<Rightarrow> Raised e s
           | Done s \<Rightarrow> run_pastes ev prm (s\<lparr>count := count s + 1\<rparr>) rest))
   \<and> paste_id \<in> set (new_checked_ids (state_of (process_paste ev prm st paste_id)))
   \<and> (cycle ev prm st p = Done st' \<and> status p = OK \<and> paste_id \<in> set (pastes p) \<longrightarrow>
        paste_id \<in> set (prev_checked_ids st'))"
proof (intro conjI impI)
  assume "http_get ev (ticks st) (raw_url paste_id) = None"
  then show "check_paste ev st paste_id =
        (False, st\<lparr>trace := trace st @ [Fetch (raw_url paste_id), read_error_notice],
                   ticks := Suc (ticks st)\<rparr>)"
    by (rule check_paste_fetch_failed)
next
  assume a: "http_get ev (ticks st) (raw_url paste_id) = None \<and> paste_id \<notin> set (prev_checked_ids st)"
  let ?st1 = "st\<lparr>new_checked_ids := new_checked_ids st @ [paste_id]\<rparr>"
  from a have "http_get ev (ticks ?st1) (raw_url paste_id) = None" by simp
  from check_paste_fetch_failed [OF this] a
  show "run_pastes ev prm st (paste_id # rest) =
          (case sleep (delay prm)
                  (st\<lparr>new_checked_ids := new_checked_ids st @ [paste_id],
                      trace := trace st @ [Fetch (raw_url paste_id), read_error_notice],
                      ticks := Suc (ticks st)\<rparr>) of
             Raised e s \<Rightarrow> Raised e s
           | Done s \<Rightarrow> run_pastes ev prm (s\<lparr>count := count s + 1\<rparr>) rest)"
    by (simp add: process_paste_def visit_def Let_def split: outcome.splits)
next
  show "paste_id \<in> set (new_checked_ids (state_of (process_paste ev prm st paste_id)))"
    by (simp add: process_paste_ids)
next
  assume a: "cycle ev prm st p = Done st' \<and> status p = OK \<and> paste_id \<in> set (pastes p)"
  then obtain st1 where st1: "run_pastes ev prm (begin_cycle st) (pastes p) = Done st1"
    by (auto simp: cycle_def Let_def split: outcome.splits)
  have p: "p = \<lparr>status = OK, pastes = pastes p, elapsed = elapsed p\<rparr>" using a by simp
  from cycle_ok [OF st1, of "elapsed p"] p a have same: "same_ids (commit prm st1) st'"
    by auto
  from run_pastes_ids [OF st1] have "set (pastes p) \<subseteq> set (new_checked_ids st1)" by simp
  then have "set (pastes p) \<subseteq> set (prev_checked_ids (commit prm st1))"
    by (auto simp: commit_def)
  with same a show "paste_id \<in> set (prev_checked_ids st')"
    by (auto simp: same_ids_def)
qed

theorem fetch_failure_is_skipped_witness:
  "http_get example_env 0 (raw_url ''/x3'') = None
   \<and> ''/x3'' \<notin> set (prev_checked_ids (init token_rules empty_fs))
   \<and> run_pastes example_env example_params (init token_rules empty_fs) [''/x3''] =
       Done ((init token_rules empty_fs)
               \<lparr>new_checked_ids := [''/x3''], count := 1,
                trace := [Fetch ''http://pastebin.com/raw/x3'', read_error_notice, Sleep (PyInt 1)],
                ticks := 1\<rparr>)
   \<and> status (listing [''/x3'']) = OK
   \<and> prev_checked_ids (state_of (cycle example_env example_params (init token_rules empty_fs)
        (listing [''/x3'']))) = [''/x3'']"
  using fetch_failure_is_skipped [of example_env "init token_rules empty_fs" "''/x3''"
    example_params "[]" "listing [''/x3'']"
    "state_of (cycle example_env example_params (init token_rules empty_fs) (listing [''/x3'']))"]
  by (simp add: run_defs)

lemma count_list_logs: "list_all is_log es \<Longrightarrow> count_list es (Fetch u) = 0"
  by (induction es) (auto simp: is_log_def)

lemma visit_fetches_once:
  assumes "visit ev prm st paste_id = Done s"
  shows "count_list (trace s) (Fetch (raw_url paste_id)) =
         count_list (trace st) (Fetch (raw_url paste_id)) + 1"
proof -
  from check_paste_trace [of ev st paste_id] obtain es
    where es: "trace (snd (check_paste ev st paste_id)) = trace st @ Fetch (raw_url paste_id) # es"
      and logs: "list_all is_log es" by blast
  from assms have "trace s = trace (snd (check_paste ev st paste_id)) @ [Sleep (delay prm)]"
    by (auto simp: visit_def sleep_def log_def split: if_splits)
  with es count_list_logs [OF logs, of "raw_url paste_id"] show ?thesis by simp
qed

text \<open>
  C9. Whether an identifier is new is decided against \<^verbatim>\<open>prev_checked_ids\<close> alone, which no
  visit changes. A listing that holds the same identifier twice, not seen in an earlier
  round, therefore runs the whole visit (fetch, display, classification, saving on a match,
  delay) twice, and two requests for the paste are sent.
\<close>

theorem repeated_id_is_visited_twice:
  "(paste_id \<notin> set (prev_checked_ids st) \<longrightarrow>
      run_pastes ev prm st [paste_id, paste_id] =
        (case visit ev prm (st\<lparr>new_checked_ids := new_checked_ids st @ [paste_id]\<rparr>) paste_id of
           Raised e s \<Rightarrow> Raised e s
         | Done s1 \<Rightarrow>
             (case visit ev prm (s1\<lparr>count := count s1 + 1,
                                     new_checked_ids := new_checked_ids s1 @ [paste_id]\<rparr>) paste_id of
                Raised e s \<Rightarrow> Raised e s
              | Done s2 \<Rightarrow> Done (s2\<lparr>count := count s2 + 1\<rparr>))))
   \<and> (paste_id \<notin> set (prev_checked_ids st) \<and>
       run_pastes ev prm st [paste_id, paste_id] = Done st' \<longrightarrow>
        count_list (trace st') (Fetch (raw_url paste_id)) =
          count_list (trace st) (Fetch (raw_url paste_id)) + 2)"
proof (intro conjI impI)
  assume new: "paste_id \<notin> set (prev_checked_ids st)"
  let ?st1 = "st\<lparr>new_checked_ids := new_checked_ids st @ [paste_id]\<rparr>"
  show "run_pastes ev prm st [paste_id, paste_id] =
        (case visit ev prm ?st1 paste_id of
           Raised e s \<Rightarrow> Raised e s
         | Done s1 \<Rightarrow>
             (case visit ev prm (s1\<lparr>count := count s1 + 1,
                                     new_checked_ids := new_checked_ids s1 @ [paste_id]\<rparr>) paste_id of
                Raised e s \<Rightarrow> Raised e s
              | Done s2 \<Rightarrow> Done (s2\<lparr>count := count s2 + 1\<rparr>)))"
  proof (cases "visit ev prm ?st1 paste_id")
    case (Raised e s)
    with new show ?thesis by (simp add: process_paste_def Let_def)
  next
    case (Done s1)
    from visit_ids [of ev prm ?st1 paste_id] Done
    have "prev_checked_ids s1 = prev_checked_ids st" by simp
    with new Done show ?thesis
      by (simp add: process_paste_def Let_def split: outcome.splits)
  qed
next
  assume a: "paste_id \<notin> set (prev_checked_ids st) \<and>
       run_pastes ev prm st [paste_id, paste_id] = Done st'"
  show "count_list (trace st') (Fetch (raw_url paste_id)) =
          count_list (trace st) (Fetch (raw_url paste_id)) + 2"
  proof -
    let ?st1 = "st\<lparr>new_checked_ids := new_checked_ids st @ [paste_id]\<rparr>"
    from a obtain q1 where q1: "process_paste ev prm st paste_id = Done q1"
      and q2: "process_paste ev prm q1 paste_id = Done st'"
      by (auto split: outcome.splits)
    from q1 a obtain s1 where s1: "visit ev prm ?st1 paste_id = Done s1"
      and q1_eq: "q1 = s1\<lparr>count := count s1 + 1\<rparr>"
      by (auto simp: process_paste_def Let_def split: outcome.splits)
    from process_paste_ids [of ev prm st paste_id] q1 a
    have "paste_id \<notin> set (prev_checked_ids q1)" by simp
    with q2 obtain s2
      where s2: "visit ev prm (q1\<lparr>new_checked_ids := new_checked_ids q1 @ [paste_id]\<rparr>) paste_id = Done s2"
      and st'_eq: "st' = s2\<lparr>count := count s2 + 1\<rparr>"
      by (auto simp: process_paste_def Let_def split: outcome.splits)
    from visit_fetches_once [OF s1] visit_fetches_once [OF s2] q1_eq st'_eq
    show ?thesis by simp
  qed
qed

theorem repeated_id_is_visited_twice_witness:
  "''/x1'' \<notin> set (prev_checked_ids (init token_rules empty_fs))
   \<and> run_pastes example_env example_params (init token_rules empty_fs) [''/x1'', ''/x1''] =
       Done ((init token_rules empty_fs)
         \<lparr>new_checked_ids := [''/x1'', ''/x1''], count := 2,
          fs := \<lparr>dirs = {''archive'', ''archive/found''},
                 files = [''archive/found/2020_01_01__00_00_01_x1.txt'' \<mapsto>
                            ''secret token ABC'' @ [CHR 0x0A],
                          ''archive/tokens.txt'' \<mapsto>
                            ''2020/01/01 00:00:01 - http://pastebin.com/raw/x1'' @ [CHR 0x0A] @
                            ''2020/01/01 00:00:03 - http://pastebin.com/raw/x1'' @ [CHR 0x0A],
                          ''archive/found/2020_01_01__00_00_03_x1.txt'' \<mapsto>
                            ''secret token ABC'' @ [CHR 0x0A]]\<rparr>,
          trace := [Fetch ''http://pastebin.com/raw/x1'',
                    Log ''ASCII text [16 B]'' False ''BLUE'' False,
                    Log ''secret token ABC'' False ''YELLOW'' False,
                    Log ''Found a matching paste: http://pastebin.com/raw/x1 (tokens.txt)''
                      True ''CYAN'' True,
                    Sleep (PyInt 1),
                    Fetch ''http://pastebin.com/raw/x1'',
                    Log ''ASCII text [16 B]'' False ''BLUE'' False,
                    Log ''secret token ABC'' False ''YELLOW'' False,
                    Log ''Found a matching paste: http://pastebin.com/raw/x1 (tokens.txt)''
                      True ''CYAN'' True,
                    Sleep (PyInt 1)],
          ticks := 4\<rparr>)"
  using repeated_id_is_visited_twice [of "''/x1''" "init token_rules empty_fs" example_env
    example_params]
  by (simp add: run_defs insert_commute)

section \<open>Properties of the seen identifiers\<close>





section \<open>Properties of saving\<close>

lemmas path_defs = category_dir_def audit_path_def audit_line_def content_path_def ensure_dir_def

lemma save_result_unfold:
  "save_result ev st paste_url paste_id label directory paste_txt =
     (let ts = get_timestamp ev (ticks st);
          st1 = st\<lparr>ticks := Suc (ticks st)\<rparr>;
          fs1 = ensure_dir (fs st) (category_dir directory)
      in case append_file fs1 (audit_path label) (audit_line ts paste_url) of
           Inl e \<Rightarrow> (Some e, st1\<lparr>fs := fs1\<rparr>)
         | Inr fs2 \<Rightarrow>
             (case write_file fs2 (content_path directory ts paste_id) (paste_txt @ [CHR 0x0A]) of
                Inl e \<Rightarrow> (Some e, st1\<lparr>fs := fs2\<rparr>)
              | Inr fs3 \<Rightarrow> (None, st1\<lparr>fs := fs3\<rparr>)))"
  by (simp add: save_result_def path_defs Let_def split: sum.splits)

lemma ensure_dir_files: "files (ensure_dir f d) = files f"
  by (simp add: ensure_dir_def makedirs_def)


lemma append_file_ok:
  "append_file f p text = Inr f' \<Longrightarrow>
   open_error f p = None \<and> f' = f\<lparr>files := (files f)(p \<mapsto> content f p @ text)\<rparr>"
  by (auto simp: append_file_def split: option.splits)







lemma check_paste_matched:
  assumes "http_get ev (ticks st) (raw_url paste_id) = Some paste_txt"
    and "verbose st \<or> snd (show_paste ev paste_txt) = None"
    and "scan_regexes ev paste_txt (regexes st) = Inr (Some (label, directory))"
  shows "\<exists>st3. fs st3 = fs st \<and> ticks st3 = Suc (ticks st) \<and>
           check_paste ev st paste_id =
             (case save_result ev st3 (raw_url paste_id) paste_id label directory paste_txt of
                (Some e, st4) \<Rightarrow> (False, read_failed st4)
              | (None, st4) \<Rightarrow> (True, st4))"
proof -
  let ?shown = "if verbose st then [] else fst (show_paste ev paste_txt)"
  let ?st3 = "st\<lparr>ticks := Suc (ticks st),
                trace := trace st @ Fetch (raw_url paste_id) # ?shown @
                  [Log (''Found a matching paste: '' @ raw_url paste_id @ '' ('' @ label @ '')'')
                     True ''CYAN'' True]\<rparr>"
  have "check_paste ev st paste_id =
          (case save_result ev ?st3 (raw_url paste_id) paste_id label directory paste_txt of
             (Some e, st4) \<Rightarrow> (False, read_failed st4)
           | (None, st4) \<Rightarrow> (True, st4))"
    using assms by (cases "verbose st") (simp_all add: check_paste_def Let_def raw_url_def log_def)
  moreover have "fs ?st3 = fs st \<and> ticks ?st3 = Suc (ticks st)" by simp
  ultimately show ?thesis by blast
qed

text \<open>
  C10. Saving is not atomic. The audit line is appended before the content file is opened:
  when the append succeeds and the content file cannot be written, \<^verbatim>\<open>save_result\<close> raises
  with the audit line already in the log. \<^verbatim>\<open>check_paste\<close>, which called it for a matching
  paste, then returns \<open>False\<close>, and the file system it leaves holds the audit line.
\<close>

theorem save_result_not_atomic:
  "(append_file (ensure_dir (fs st) (category_dir directory)) (audit_path label)
      (audit_line (get_timestamp ev (ticks st)) paste_url) = Inr fs2
    \<and> write_file fs2 (content_path directory (get_timestamp ev (ticks st)) paste_id)
        (paste_txt @ [CHR 0x0A]) = Inl e \<longrightarrow>
      save_result ev st paste_url paste_id label directory paste_txt =
        (Some e, st\<lparr>ticks := Suc (ticks st), fs := fs2\<rparr>)
      \<and> files fs2 (audit_path label) =
          Some (content (fs st) (audit_path label) @
                audit_line (get_timestamp ev (ticks st)) paste_url))
   \<and> (http_get ev (ticks st) (raw_url paste_id) = Some paste_txt
      \<and> (verbose st \<or> snd (show_paste ev paste_txt) = None)
      \<and> scan_regexes ev paste_txt (regexes st) = Inr (Some (label, directory))
      \<and> append_file (ensure_dir (fs st) (category_dir directory)) (audit_path label)
          (audit_line (get_timestamp ev (Suc (ticks st))) (raw_url paste_id)) = Inr fs2
      \<and> write_file fs2 (content_path directory (get_timestamp ev (Suc (ticks st))) paste_id)
          (paste_txt @ [CHR 0x0A]) = Inl e \<longrightarrow>
        fst (check_paste ev st paste_id) = False
        \<and> fs (snd (check_paste ev st paste_id)) = fs2
        \<and> files fs2 (audit_path label) =
            Some (content (fs st) (audit_path label) @
                  audit_line (get_timestamp ev (Suc (ticks st))) (raw_url paste_id)))"
proof (intro conjI impI)
  assume a: "append_file (ensure_dir (fs st) (category_dir directory)) (audit_path label)
      (audit_line (get_timestamp ev (ticks st)) paste_url) = Inr fs2
    \<and> write_file fs2 (content_path directory (get_timestamp ev (ticks st)) paste_id)
        (paste_txt @ [CHR 0x0A]) = Inl e"
  then show "save_result ev st paste_url paste_id label directory paste_txt =
        (Some e, st\<lparr>ticks := Suc (ticks st), fs := fs2\<rparr>)"
    by (simp add: save_result_unfold Let_def)
  from a have "append_file (ensure_dir (fs st) (category_dir directory)) (audit_path label)
      (audit_line (get_timestamp ev (ticks st)) paste_url) = Inr fs2" by simp
  from append_file_ok [OF this]
  show "files fs2 (audit_path label) =
          Some (content (fs st) (audit_path label) @
                audit_line (get_timestamp ev (ticks st)) paste_url)"
    by (simp add: content_def ensure_dir_files)
next
  assume a: "http_get ev (ticks st) (raw_url paste_id) = Some paste_txt
      \<and> (verbose st \<or> snd (show_paste ev paste_txt) = None)
      \<and> scan_regexes ev paste_txt (regexes st) = Inr (Some (label, directory))
      \<and> append_file (ensure_dir (fs st) (category_dir directory)) (audit_path label)
          (audit_line (get_timestamp ev (Suc (ticks st))) (raw_url paste_id)) = Inr fs2
      \<and> write_file fs2 (content_path directory (get_timestamp ev (Suc (ticks st))) paste_id)
          (paste_txt @ [CHR 0x0A]) = Inl e"
  from a check_paste_matched [of ev st paste_id paste_txt label directory] obtain st3
    where st3: "fs st3 = fs st" "ticks st3 = Suc (ticks st)"
      and cp: "check_paste ev st paste_id =
             (case save_result ev st3 (raw_url paste_id) paste_id label directory paste_txt of
                (Some e, st4) \<Rightarrow> (False, read_failed st4)
              | (None, st4) \<Rightarrow> (True, st4))"
    by blast
  from a st3 have sv: "save_result ev st3 (raw_url paste_id) paste_id label directory paste_txt =
        (Some e, st3\<lparr>ticks := Suc (ticks st3), fs := fs2\<rparr>)"
    by (simp add: save_result_unfold Let_def)
  from cp sv show "fst (check_paste ev st paste_id) = False" by simp
  from cp sv show "fs (snd (check_paste ev st paste_id)) = fs2"
    by (simp add: read_failed_def log_def)
  from a have "append_file (ensure_dir (fs st) (category_dir directory)) (audit_path label)
      (audit_line (get_timestamp ev (Suc (ticks st))) (raw_url paste_id)) = Inr fs2" by simp
  from append_file_ok [OF this]
  show "files fs2 (audit_path label) =
            Some (content (fs st) (audit_path label) @
                  audit_line (get_timestamp ev (Suc (ticks st))) (raw_url paste_id))"
    by (simp add: content_def ensure_dir_files)
qed

theorem save_result_not_atomic_witness:
  "http_get example_env 0 (raw_url ''/x1'') = Some ''secret token ABC''
   \<and> scan_regexes example_env ''secret token ABC'' token_rules = Inr (Some (''tokens.txt'', ''found''))
   \<and> append_file (ensure_dir blocked_fs (category_dir ''found'')) (audit_path ''tokens.txt'')
        (audit_line ''2020/01/01 00:00:01'' (raw_url ''/x1'')) =
       Inr (blocked_fs\<lparr>files := (files blocked_fs)(''archive/tokens.txt'' \<mapsto>
              ''2020/01/01 00:00:01 - http://pastebin.com/raw/x1'' @ [CHR 0x0A])\<rparr>)
   \<and> write_file (blocked_fs\<lparr>files := (files blocked_fs)(''archive/tokens.txt'' \<mapsto>
              ''2020/01/01 00:00:01 - http://pastebin.com/raw/x1'' @ [CHR 0x0A])\<rparr>)
        (content_path ''found'' ''2020/01/01 00:00:01'' ''/x1'') (''secret token ABC'' @ [CHR 0x0A]) =
       Inl NotADirectoryError
   \<and> fst (check_paste example_env (init token_rules blocked_fs) ''/x1'') = False
   \<and> files (fs (snd (check_paste example_env (init token_rules blocked_fs) ''/x1'')))
        ''archive/tokens.txt'' = Some (''2020/01/01 00:00:01 - http://pastebin.com/raw/x1'' @ [CHR 0x0A])
   \<and> files (fs (snd (check_paste example_env (init token_rules blocked_fs) ''/x1'')))
        ''archive/found/2020_01_01__00_00_01_x1.txt'' = None"
  using save_result_not_atomic [of "init token_rules blocked_fs" "''found''" "''tokens.txt''"
    example_env "raw_url ''/x1''"
    "blocked_fs\<lparr>files := (files blocked_fs)(''archive/tokens.txt'' \<mapsto>
              ''2020/01/01 00:00:01 - http://pastebin.com/raw/x1'' @ [CHR 0x0A])\<rparr>"
    "''/x1''" "''secret token ABC''" NotADirectoryError]
  by (simp add: run_defs path_defs blocked_fs_def)








section \<open>Properties of the verbosity flag\<close>

lemma save_result_state:
  assumes "fs a = fs b" and "ticks a = ticks b"
  shows "save_result ev a u i l d t =
           (fst (save_result ev b u i l d t),
            a\<lparr>ticks := Suc (ticks a), fs := fs (snd (save_result ev b u i l d t))\<rparr>)"
  using assms by (simp add: save_result_unfold Let_def split: sum.splits)

lemma check_paste_verbose:
  assumes "displayable ev st paste_id"
  shows "fst (check_paste ev (st\<lparr>verbose := False\<rparr>) paste_id) =
           fst (check_paste ev (st\<lparr>verbose := True\<rparr>) paste_id)
       \<and> (\<exists>rest. trace (snd (check_paste ev (st\<lparr>verbose := True\<rparr>) paste_id)) =
                    trace st @ Fetch (raw_url paste_id) # rest
                \<and> snd (check_paste ev (st\<lparr>verbose := False\<rparr>) paste_id) =
                    (snd (check_paste ev (st\<lparr>verbose := True\<rparr>) paste_id))
                      \<lparr>verbose := False,
                       trace := trace st @ Fetch (raw_url paste_id) #
                                shown_lines ev st paste_id @ rest\<rparr>)"
proof (cases "http_get ev (ticks st) (raw_url paste_id)")
  case None
  then show ?thesis
    by (simp add: check_paste_def Let_def raw_url_def shown_lines_def read_failed_def log_def)
next
  case (Some paste_txt)
  with assms have ok: "snd (show_paste ev paste_txt) = None" by (simp add: displayable_def)
  show ?thesis
  proof (cases "scan_regexes ev paste_txt (regexes st)")
    case (Inl e)
    with Some ok show ?thesis
      by (simp add: check_paste_def Let_def raw_url_def shown_lines_def read_failed_def log_def)
  next
    case (Inr m)
    show ?thesis
    proof (cases m)
      case None
      with Inr Some ok show ?thesis
        by (simp add: check_paste_def Let_def raw_url_def shown_lines_def read_failed_def log_def)
    next
      case (Some ld)
      obtain label directory where ld: "ld = (label, directory)" by (cases ld)
      define u where "u = raw_url paste_id"
      have u: "PASTEBIN_URL @ CHR ''/'' # CHR ''r'' # CHR ''a'' # CHR ''w'' # paste_id = u"
        by (simp add: u_def raw_url_def)
      define r where
        "r = save_result ev (st\<lparr>ticks := Suc (ticks st)\<rparr>) u paste_id label directory paste_txt"
      have sv: "\<And>a. fs a = fs st \<Longrightarrow> ticks a = Suc (ticks st) \<Longrightarrow>
          save_result ev a u paste_id label directory paste_txt =
            (fst r, a\<lparr>ticks := Suc (ticks a), fs := fs (snd r)\<rparr>)"
        unfolding r_def by (rule save_result_state) simp_all
      from \<open>http_get ev (ticks st) (raw_url paste_id) = Some paste_txt\<close>
      have get: "http_get ev (ticks st) u = Some paste_txt" by (simp add: u_def)
      from get ok Inr Some ld
      show ?thesis
        unfolding u_def [symmetric]
        by (cases "fst r")
           (simp_all add: check_paste_def Let_def shown_lines_def read_failed_def log_def sv u
              u_def [symmetric])
    qed
  qed
qed

text \<open>
  C8. The flag \<^verbatim>\<open>verbose\<close> decides only whether \<^verbatim>\<open>show_paste\<close> runs. For a paste whose
  display does not raise (or that cannot be fetched), checking it with the flag set and
  with the flag cleared gives the same result, the same files and audit lines and the same
  buffer of unmatched pastes; the console differs by exactly the lines \<^verbatim>\<open>show_paste\<close>
  prints. The operator's choice \<^verbatim>\<open>v\<close> flips the flag and changes nothing else but the
  console.
\<close>

theorem verbosity_only_changes_display:
  "(displayable ev st paste_id \<longrightarrow>
      fst (check_paste ev (st\<lparr>verbose := False\<rparr>) paste_id) =
        fst (check_paste ev (st\<lparr>verbose := True\<rparr>) paste_id)
      \<and> fs (snd (check_paste ev (st\<lparr>verbose := False\<rparr>) paste_id)) =
          fs (snd (check_paste ev (st\<lparr>verbose := True\<rparr>) paste_id))
      \<and> pastes_for_save (snd (check_paste ev (st\<lparr>verbose := False\<rparr>) paste_id)) =
          pastes_for_save (snd (check_paste ev (st\<lparr>verbose := True\<rparr>) paste_id))
      \<and> (\<exists>rest. trace (snd (check_paste ev (st\<lparr>verbose := True\<rparr>) paste_id)) =
                    trace st @ Fetch (raw_url paste_id) # rest
                \<and> trace (snd (check_paste ev (st\<lparr>verbose := False\<rparr>) paste_id)) =
                    trace st @ Fetch (raw_url paste_id) # shown_lines ev st paste_id @ rest))
   \<and> on_interrupt ev st ''v'' =
       Done ((log (Log ([CHR 0x0A] @ ''Quit/Verbose/Save(last '' @
                        str_nat (length (pastes_for_save st)) @ '' pastes)[q/v/s]:'')
                       False ''RED'' False) st)
             \<lparr>verbose := \<not> verbose st\<rparr>)"
proof (intro conjI impI)
  assume d: "displayable ev st paste_id"
  from check_paste_verbose [OF d] obtain rest
    where r: "fst (check_paste ev (st\<lparr>verbose := False\<rparr>) paste_id) =
                fst (check_paste ev (st\<lparr>verbose := True\<rparr>) paste_id)"
      and t: "trace (snd (check_paste ev (st\<lparr>verbose := True\<rparr>) paste_id)) =
                trace st @ Fetch (raw_url paste_id) # rest"
      and s: "snd (check_paste ev (st\<lparr>verbose := False\<rparr>) paste_id) =
                (snd (check_paste ev (st\<lparr>verbose := True\<rparr>) paste_id))
                  \<lparr>verbose := False,
                   trace := trace st @ Fetch (raw_url paste_id) #
                            shown_lines ev st paste_id @ rest\<rparr>"
    by blast
  from r show "fst (check_paste ev (st\<lparr>verbose := False\<rparr>) paste_id) =
        fst (check_paste ev (st\<lparr>verbose := True\<rparr>) paste_id)" .
  show "fs (snd (check_paste ev (st\<lparr>verbose := False\<rparr>) paste_id)) =
          fs (snd (check_paste ev (st\<lparr>verbose := True\<rparr>) paste_id))"
    by (subst s) simp
  show "pastes_for_save (snd (check_paste ev (st\<lparr>verbose := False\<rparr>) paste_id)) =
          pastes_for_save (snd (check_paste ev (st\<lparr>verbose := True\<rparr>) paste_id))"
    by (subst s) simp
  have "trace (snd (check_paste ev (st\<lparr>verbose := False\<rparr>) paste_id)) =
          trace st @ Fetch (raw_url paste_id) # shown_lines ev st paste_id @ rest"
    by (subst s) simp
  with t show "\<exists>rest. trace (snd (check_paste ev (st\<lparr>verbose := True\<rparr>) paste_id)) =
                    trace st @ Fetch (raw_url paste_id) # rest
                \<and> trace (snd (check_paste ev (st\<lparr>verbose := False\<rparr>) paste_id)) =
                    trace st @ Fetch (raw_url paste_id) # shown_lines ev st paste_id @ rest"
    by blast
next
  show "on_interrupt ev st ''v'' =
       Done ((log (Log ([CHR 0x0A] @ ''Quit/Verbose/Save(last '' @
                        str_nat (length (pastes_for_save st)) @ '' pastes)[q/v/s]:'')
                       False ''RED'' False) st)
             \<lparr>verbose := \<not> verbose st\<rparr>)"
    by (simp add: on_interrupt_def Let_def log_def)
qed

theorem verbosity_only_changes_display_witness:
  "displayable example_env (init token_rules empty_fs) ''/x1''
   \<and> fst (check_paste example_env ((init token_rules empty_fs)\<lparr>verbose := False\<rparr>) ''/x1'') = True
   \<and> fst (check_paste example_env ((init token_rules empty_fs)\<lparr>verbose := True\<rparr>) ''/x1'') = True
   \<and> fs (snd (check_paste example_env ((init token_rules empty_fs)\<lparr>verbose := False\<rparr>) ''/x1'')) =
       fs (snd (check_paste example_env ((init token_rules empty_fs)\<lparr>verbose := True\<rparr>) ''/x1''))
   \<and> shown_lines example_env (init token_rules empty_fs) ''/x1'' =
       [Log ''ASCII text [16 B]'' False ''BLUE'' False,
        Log ''secret token ABC'' False ''YELLOW'' False]"
  using verbosity_only_changes_display [of example_env "init token_rules empty_fs" "''/x1''"]
  by (simp add: run_defs displayable_def shown_lines_def)

text \<open>
  For every paste the claim fails: \<^verbatim>\<open>show_paste\<close> runs inside the \<^verbatim>\<open>try\<close> of \<^verbatim>\<open>check_paste\<close>,
  so a paste the terminal cannot encode is given up as a read error when it is displayed,
  and is classified and saved when it is not.
\<close>

theorem verbosity_changes_saving_counterexample:
  "fst (check_paste ascii_terminal_env ((init token_rules empty_fs)\<lparr>verbose := True\<rparr>) ''/x4'') = True
   \<and> fst (check_paste ascii_terminal_env ((init token_rules empty_fs)\<lparr>verbose := False\<rparr>) ''/x4'') = False
   \<and> files (fs (snd (check_paste ascii_terminal_env
         ((init token_rules empty_fs)\<lparr>verbose := True\<rparr>) ''/x4''))) ''archive/tokens.txt'' =
       Some (''2020/01/01 00:00:01 - http://pastebin.com/raw/x4'' @ [CHR 0x0A])
   \<and> files (fs (snd (check_paste ascii_terminal_env
         ((init token_rules empty_fs)\<lparr>verbose := False\<rparr>) ''/x4''))) ''archive/tokens.txt'' = None
   \<and> pastes_for_save (snd (check_paste ascii_terminal_env
         ((init token_rules empty_fs)\<lparr>verbose := False\<rparr>) ''/x4'')) = []"
  by (simp add: run_defs ascii_terminal_env_def)

end
